theory Spec2Isabelle
  imports Main "HOL-Library.Word" "HOL-Library.Signed_Division"
begin

unbundle bit_operations_syntax

section \<open>Machine types of the sources\<close>

text \<open>
  The C++ sources use \<open>int\<close> (32 bits, two's complement) and \<open>uint8_t\<close>. Both are words
  here, so that \<open>+\<close> wraps around and a conversion from \<open>int\<close> to \<open>uint8_t\<close> keeps the low
  eight bits, as the implicit conversion of C++ does. Overflow of a signed \<open>int\<close> is
  undefined in C++; the model takes the two's complement wrap-around.
\<close>

type_synonym c_int = "32 word"
type_synonym uint8_t = "8 word"

definition INT_MAX :: c_int where
  "INT_MAX = 2147483647"

definition INT_MIN :: c_int where
  "INT_MIN = - 2147483648"

section \<open>openhd-camera.hpp: VideoFormat\<close>

text \<open>
  The enum \<open>VideoCodec\<close> is declared in openhd-camera-enums.hpp, which is not among the
  sources; openhd-camera.hpp names its values \<open>H264\<close> and \<open>Unknown\<close> in code and
  \<open>H265\<close> and \<open>MJPEG\<close> in a comment of \<open>createDummyCamera\<close>.
\<close>

datatype VideoCodec = H264 | H265 | MJPEG | Unknown

record VideoFormat =
  videoCodec :: VideoCodec
  width :: c_int
  height :: c_int
  framerate :: c_int

text \<open>The default member initialisers of the struct.\<close>

definition VideoFormat_default :: VideoFormat where
  "VideoFormat_default = \<lparr>videoCodec = H264, width = 640, height = 480, framerate = 30\<rparr>"

text \<open>\<open>VideoFormat::operator==\<close>: three comparisons, none of the codec.\<close>

definition VideoFormat_eq :: "VideoFormat \<Rightarrow> VideoFormat \<Rightarrow> bool" where
  "VideoFormat_eq this o' \<longleftrightarrow>
     width this = width o' \<and> height this = height o' \<and> framerate this = framerate o'"

section \<open>MEndpoint.h: the channel allocator\<close>

text \<open>
  \<open>checkoutFreeChannel\<close> keeps its counter in the function-local static \<open>channel_idx\<close>,
  initialised to 0, and runs its body under a lock: calls are serialised, so the allocator
  is a function from the counter to the returned value and the new counter.
\<close>

definition channel_idx_init :: c_int where
  "channel_idx_init = 0"

definition checkoutFreeChannel :: "c_int \<Rightarrow> c_int \<times> c_int" where
  "checkoutFreeChannel channel_idx =
     (let ret = channel_idx;
          channel_idx' = channel_idx + 1
      in (ret, channel_idx'))"

section \<open>MEndpoint.h: the endpoint\<close>

text \<open>
  MEndpoint.h declares the class; the bodies of its constructor and of \<open>sendMessage\<close>,
  \<open>registerCallback\<close>, \<open>isAlive\<close>, \<open>parseNewData\<close> and \<open>onNewMavlinkMessage\<close> are in
  MEndpoint.cpp, which is not among the sources, and the types \<open>mavlink_message_t\<close>,
  \<open>mavlink_status_t\<close> and \<open>MAV_MSG_CALLBACK\<close> come from headers that are not among them
  either. The fields and their initial values below are those of the header; each
  definition made from the specification says so.
\<close>

text \<open>
  A reading of \<open>std::chrono::steady_clock\<close>: ticks since the epoch of the clock. The
  64-bit tick count does not overflow in the lifetime of a process, so it is an integer.
\<close>

type_synonym time_point = int

text \<open>
  Modelled from the spec: the type \<open>mavlink_message_t\<close> (\<open>MavlinkMessage\<close> wraps it). A
  message is an opaque decoded unit, the content of one checksum-verified frame: here the
  payload bytes of the frame.
\<close>

type_synonym mavlink_message_t = "uint8_t list"

text \<open>
  Modelled from the spec: the type \<open>mavlink_status_t\<close>, the state of the frame parser, is
  an accumulation buffer plus a decode-status enum (seeking-sync, accumulating-header,
  accumulating-payload, validating-checksum).
\<close>

datatype decode_status = SeekSync | ReadHeader | ReadPayload | VerifyChecksum

record FrameParser =
  buffer :: "uint8_t list"
  status :: decode_status

definition FrameParser_init :: FrameParser where
  "FrameParser_init = \<lparr>buffer = [], status = SeekSync\<rparr>"

text \<open>
  Modelled from the spec: the wire format, an external protocol definition: a
  start-of-frame marker byte, a length field, a payload of that length, and a trailing
  checksum covering header and payload. The marker and the checksum function are
  parameters; the length field and the checksum are one byte each.
\<close>

record WireFormat =
  marker :: uint8_t
  checksum :: "uint8_t list \<Rightarrow> uint8_t"

text \<open>
  Modelled from the spec: the well-formed frame that carries a payload of at most 255
  bytes: marker, length, payload, checksum of the three.
\<close>

definition encode_frame :: "WireFormat \<Rightarrow> mavlink_message_t \<Rightarrow> uint8_t list" where
  "encode_frame fmt payload =
     (let header_payload = marker fmt # of_nat (length payload) # payload
      in header_payload @ [checksum fmt header_payload])"

text \<open>The length field of a frame under accumulation: its second byte.\<close>

definition expected_len :: "uint8_t list \<Rightarrow> nat" where
  "expected_len buf = (case buf of _ # l # _ \<Rightarrow> unat l | _ \<Rightarrow> 0)"

text \<open>
  Modelled from the spec: the frame parser (the MAVLink library's \<open>mavlink_parse_char\<close>
  behind \<open>parseNewData\<close>), one byte at a time:
  SeekSync, ReadHeader, ReadPayload, VerifyChecksum, then emit or discard, then SeekSync.
  On a checksum mismatch the frame in progress is discarded and the machine returns to
  SeekSync. The result is the emitted message, if any, and the new parser state.
\<close>

definition parse_char ::
  "WireFormat \<Rightarrow> uint8_t \<Rightarrow> FrameParser \<Rightarrow> mavlink_message_t option \<times> FrameParser" where
  "parse_char fmt c p =
     (case status p of
        SeekSync \<Rightarrow>
          if c = marker fmt then (None, \<lparr>buffer = [c], status = ReadHeader\<rparr>)
          else (None, p)
      | ReadHeader \<Rightarrow>
          (None, \<lparr>buffer = buffer p @ [c],
                  status = (if c = 0 then VerifyChecksum else ReadPayload)\<rparr>)
      | ReadPayload \<Rightarrow>
          (let buf = buffer p @ [c]
           in (None, \<lparr>buffer = buf,
                       status = (if length buf = 2 + expected_len buf then VerifyChecksum
                                 else ReadPayload)\<rparr>))
      | VerifyChecksum \<Rightarrow>
          if c = checksum fmt (buffer p)
          then (Some (drop 2 (buffer p)), \<lparr>buffer = [], status = SeekSync\<rparr>)
          else (None, \<lparr>buffer = [], status = SeekSync\<rparr>))"

text \<open>
  The class. \<open>MAV_MSG_CALLBACK\<close> is a function object called with the message; what it
  does to the rest of the program is a function on a state \<open>'w\<close> of that program.
  \<open>nullptr\<close> is \<open>None\<close>.
\<close>

record 'w MEndpoint =
  TAG :: string
  callback :: "(mavlink_message_t \<Rightarrow> 'w \<Rightarrow> 'w) option"
  receiveMavlinkStatus :: FrameParser
  m_mavlink_channel :: uint8_t
  lastMessage :: time_point
  m_n_messages_received :: c_int
  m_n_messages_sent :: c_int
  m_n_messages_send_failed :: c_int

text \<open>
  Modelled from the spec: the constructor \<open>MEndpoint::MEndpoint(std::string tag)\<close>. The
  channel ID is assigned once at endpoint construction, from the allocator; the \<open>int\<close>
  that \<open>checkoutFreeChannel\<close> returns is stored in the field of type \<open>const uint8_t\<close>,
  which keeps its low eight bits. The other fields take the default member initialisers
  of the header (\<open>lastMessage{}\<close> is the epoch of the clock).
\<close>

definition MEndpoint_ctor :: "string \<Rightarrow> c_int \<Rightarrow> 'w MEndpoint \<times> c_int" where
  "MEndpoint_ctor tag channel_idx =
     (let (ret, channel_idx') = checkoutFreeChannel channel_idx
      in (\<lparr>TAG = tag, callback = None, receiveMavlinkStatus = FrameParser_init,
           m_mavlink_channel = ucast ret, lastMessage = 0, m_n_messages_received = 0,
           m_n_messages_sent = 0, m_n_messages_send_failed = 0\<rparr>,
          channel_idx'))"

text \<open>The endpoints of a process, constructed one after the other; none releases its channel.\<close>

fun construct_endpoints :: "string list \<Rightarrow> c_int \<Rightarrow> 'w MEndpoint list \<times> c_int" where
  "construct_endpoints [] channel_idx = ([], channel_idx)"
| "construct_endpoints (tag # tags) channel_idx =
     (let (e, channel_idx') = MEndpoint_ctor tag channel_idx;
          (es, channel_idx'') = construct_endpoints tags channel_idx'
      in (e # es, channel_idx''))"

text \<open>
  Modelled from the spec: \<open>registerCallback\<close> installs exactly one callback, replacing any
  previous registration.
\<close>

definition registerCallback ::
  "(mavlink_message_t \<Rightarrow> 'w \<Rightarrow> 'w) \<Rightarrow> 'w MEndpoint \<Rightarrow> 'w MEndpoint" where
  "registerCallback cb e = e\<lparr>callback := Some cb\<rparr>"

text \<open>
  Modelled from the spec: \<open>onNewMavlinkMessage\<close>, the delivery step for a completed,
  checksum-valid frame: refresh the liveness timestamp and the received counter, then
  invoke the registered callback if present. \<open>now\<close> is the reading of the steady clock.
\<close>

definition onNewMavlinkMessage ::
  "time_point \<Rightarrow> mavlink_message_t \<Rightarrow> 'w MEndpoint \<times> 'w \<Rightarrow> 'w MEndpoint \<times> 'w" where
  "onNewMavlinkMessage now msg s =
     (let (e, w) = s;
          e1 = e\<lparr>lastMessage := now\<rparr>;
          e2 = e1\<lparr>m_n_messages_received := m_n_messages_received e1 + 1\<rparr>
      in case callback e2 of
           None \<Rightarrow> (e2, w)
         | Some cb \<Rightarrow> (e2, cb msg w))"

text \<open>\<open>parseNewDataEmulateForMavsdk\<close>, from the header: one call of the delivery step.\<close>

definition parseNewDataEmulateForMavsdk ::
  "time_point \<Rightarrow> mavlink_message_t \<Rightarrow> 'w MEndpoint \<times> 'w \<Rightarrow> 'w MEndpoint \<times> 'w" where
  "parseNewDataEmulateForMavsdk now msg s = onNewMavlinkMessage now msg s"

text \<open>
  Modelled from the spec: \<open>parseNewData\<close> feeds every byte of the buffer into the frame
  parser and runs the delivery step for each completed frame. The buffer is the list of
  the \<open>data_len\<close> bytes at \<open>data\<close>.
\<close>

fun parseNewData ::
  "WireFormat \<Rightarrow> time_point \<Rightarrow> uint8_t list \<Rightarrow> 'w MEndpoint \<times> 'w \<Rightarrow> 'w MEndpoint \<times> 'w" where
  "parseNewData fmt now [] s = s"
| "parseNewData fmt now (c # data) s =
     (let (e, w) = s;
          (res, p) = parse_char fmt c (receiveMavlinkStatus e);
          e1 = e\<lparr>receiveMavlinkStatus := p\<rparr>
      in parseNewData fmt now data
           (case res of
              None \<Rightarrow> (e1, w)
            | Some msg \<Rightarrow> onNewMavlinkMessage now msg (e1, w)))"

text \<open>
  A stream that arrives in chunks: one call of \<open>parseNewData\<close> per chunk, each at its own
  time.
\<close>

fun receive_chunks ::
  "WireFormat \<Rightarrow> (time_point \<times> uint8_t list) list \<Rightarrow> 'w MEndpoint \<times> 'w \<Rightarrow> 'w MEndpoint \<times> 'w" where
  "receive_chunks fmt [] s = s"
| "receive_chunks fmt ((now, data) # chunks) s =
     receive_chunks fmt chunks (parseNewData fmt now data s)"

text \<open>
  Modelled from the spec: \<open>isAlive\<close>: alive iff \<open>now - last_received < ALIVE_TIMEOUT\<close>;
  before any message has ever been received, the endpoint is dead. Of the fields of the
  header, the counter \<open>m_n_messages_received\<close> tells whether a message has ever been
  received: it is 0 until the first delivery. The timeout is no constant of the header;
  it is a parameter.
\<close>

definition isAlive :: "int \<Rightarrow> time_point \<Rightarrow> 'w MEndpoint \<Rightarrow> bool" where
  "isAlive alive_timeout now e \<longleftrightarrow>
     m_n_messages_received e \<noteq> 0 \<and> now - lastMessage e < alive_timeout"

text \<open>
  Modelled from the spec: the ways in which a transport fails under a send: not connected,
  or a write error.
\<close>

datatype transport_error = NotConnected | WriteError

text \<open>
  Modelled from the spec: \<open>sendMessage\<close> increments sent-attempted, delegates to the
  transport-specific send primitive, and on any transport failure (not-connected, write
  error) increments sent-failed and returns normally: the failure is swallowed, never
  propagated. \<open>sendMessageImpl\<close> is pure virtual: it is a parameter, a function on the
  state \<open>'t\<close> of the transport. It returns the \<open>bool\<close> of the header (\<open>Inr\<close>: true iff
  the message has been sent) or fails with a transport error (\<open>Inl\<close>). The result of
  \<open>sendMessage\<close> is a sum as well, so that a failure that reached the caller would be a
  value \<open>Inl\<close>. The header has the two counters \<open>m_n_messages_sent\<close> (attempts) and
  \<open>m_n_messages_send_failed\<close>.
\<close>

definition sendMessage ::
  "(mavlink_message_t \<Rightarrow> 't \<Rightarrow> (transport_error + bool) \<times> 't) \<Rightarrow> mavlink_message_t \<Rightarrow>
   'w MEndpoint \<times> 't \<Rightarrow> transport_error + 'w MEndpoint \<times> 't" where
  "sendMessage sendMessageImpl message s =
     (let (e, t) = s;
          e1 = e\<lparr>m_n_messages_sent := m_n_messages_sent e + 1\<rparr>;
          (res, t') = sendMessageImpl message t
      in case res of
           Inr True \<Rightarrow> Inr (e1, t')
         | Inr False \<Rightarrow>
             Inr (e1\<lparr>m_n_messages_send_failed := m_n_messages_send_failed e1 + 1\<rparr>, t')
         | Inl err \<Rightarrow>
             Inr (e1\<lparr>m_n_messages_send_failed := m_n_messages_send_failed e1 + 1\<rparr>, t'))"

text \<open>
  The header keeps no counter of successful sends: their number is the attempts without
  the failures.
\<close>

definition n_messages_send_succeeded :: "'w MEndpoint \<Rightarrow> c_int" where
  "n_messages_send_succeeded e = m_n_messages_sent e - m_n_messages_send_failed e"

text \<open>
  \<open>random_number\<close>, from the header. \<open>srand\<close> and \<open>rand\<close> belong to the C library and are
  parameters: \<open>srand seed\<close> is the generator state that a seed starts (the sequence that
  follows \<open>srand\<close> depends on the seed alone), \<open>rand\<close> returns a number and the next state.
  \<open>g\<close> is the generator state before the call, \<open>t\<close> the value of \<open>time(NULL)\<close>, converted
  to the \<open>unsigned\<close> argument of \<open>srand\<close>. \<open>%\<close> truncates towards zero (\<open>smod\<close>); a zero
  divisor traps, which is \<open>None\<close> (\<open>rand()\<close> is never negative, so no other divisor
  traps).
\<close>

definition random_number ::
  "(32 word \<Rightarrow> 'g) \<Rightarrow> ('g \<Rightarrow> c_int \<times> 'g) \<Rightarrow> int \<Rightarrow> c_int \<Rightarrow> c_int \<Rightarrow> 'g \<Rightarrow> (c_int \<times> 'g) option" where
  "random_number srand rand t min' max' g =
     (let g1 = srand (word_of_int t);
          (r, g2) = rand g1;
          d = max' - min' + 1
      in if d = 0 then None
         else Some (word_of_int (sint r smod sint d) + min', g2))"

section \<open>Auxiliary notions for the receive path\<close>

text \<open>
  The frame parser run over a buffer on its own: the messages it emits, in order, and its
  final state.
\<close>

fun parse_bytes ::
  "WireFormat \<Rightarrow> uint8_t list \<Rightarrow> FrameParser \<Rightarrow> mavlink_message_t list \<times> FrameParser" where
  "parse_bytes fmt [] p = ([], p)"
| "parse_bytes fmt (c # data) p =
     (let (res, p1) = parse_char fmt c p;
          (msgs, p2) = parse_bytes fmt data p1
      in (case res of None \<Rightarrow> msgs | Some msg \<Rightarrow> msg # msgs, p2))"

text \<open>The delivery step run for a list of messages, first to last.\<close>

fun deliver_all ::
  "time_point \<Rightarrow> mavlink_message_t list \<Rightarrow> 'w MEndpoint \<times> 'w \<Rightarrow> 'w MEndpoint \<times> 'w" where
  "deliver_all now [] s = s"
| "deliver_all now (msg # msgs) s = deliver_all now msgs (onNewMavlinkMessage now msg s)"

text \<open>The callback, if registered, invoked once with each message of a list, first to last.\<close>

definition invoke_callback ::
  "(mavlink_message_t \<Rightarrow> 'w \<Rightarrow> 'w) option \<Rightarrow> mavlink_message_t list \<Rightarrow> 'w \<Rightarrow> 'w" where
  "invoke_callback cbo msgs w =
     (case cbo of None \<Rightarrow> w | Some cb \<Rightarrow> foldl (\<lambda>w' msg. cb msg w') w msgs)"

text \<open>
  Corrupt bytes between two frames, described by their shape and not by what the parser
  does with them: stray bytes, none of them the start-of-frame marker, and complete frames
  (marker, length, payload of that length, one checksum byte) whose checksum byte is
  wrong.
\<close>

datatype corrupt_segment = Stray "uint8_t list" | BadFrame "uint8_t list" uint8_t

fun segment_bytes :: "WireFormat \<Rightarrow> corrupt_segment \<Rightarrow> uint8_t list" where
  "segment_bytes fmt (Stray bs) = bs"
| "segment_bytes fmt (BadFrame payload ck) =
     marker fmt # of_nat (length payload) # payload @ [ck]"

fun corrupt_segment_ok :: "WireFormat \<Rightarrow> corrupt_segment \<Rightarrow> bool" where
  "corrupt_segment_ok fmt (Stray bs) \<longleftrightarrow> marker fmt \<notin> set bs"
| "corrupt_segment_ok fmt (BadFrame payload ck) \<longleftrightarrow>
     length payload \<le> 255 \<and>
     ck \<noteq> checksum fmt (marker fmt # of_nat (length payload) # payload)"

section \<open>Concrete instances\<close>

text \<open>
  A wire format (marker 253, checksum the sum of the bytes modulo 256), a callback that
  appends the message to a log, a transport that sends iff it is connected and fails
  with \<open>NotConnected\<close> otherwise, a transport that never sends and says so, a C library
  generator, and endpoints as the constructor makes them.
\<close>

definition sum_checksum :: "uint8_t list \<Rightarrow> uint8_t" where
  "sum_checksum bs = sum_list bs"

definition example_format :: WireFormat where
  "example_format = \<lparr>marker = 253, checksum = sum_checksum\<rparr>"

definition log_message ::
  "mavlink_message_t \<Rightarrow> mavlink_message_t list \<Rightarrow> mavlink_message_t list" where
  "log_message msg w = w @ [msg]"

definition example_endpoint :: "mavlink_message_t list MEndpoint" where
  "example_endpoint =
     registerCallback log_message (fst (MEndpoint_ctor ''serial'' channel_idx_init))"

definition fresh_endpoint :: "unit MEndpoint" where
  "fresh_endpoint = fst (MEndpoint_ctor ''udp'' channel_idx_init)"

definition link_send ::
  "mavlink_message_t \<Rightarrow> bool \<Rightarrow> (transport_error + bool) \<times> bool" where
  "link_send message connected =
     (if connected then Inr True else Inl NotConnected, connected)"

definition busy_send ::
  "mavlink_message_t \<Rightarrow> bool \<Rightarrow> (transport_error + bool) \<times> bool" where
  "busy_send message connected = (Inr False, connected)"

definition lcg_srand :: "32 word \<Rightarrow> 32 word" where
  "lcg_srand seed = seed"

definition lcg_rand :: "32 word \<Rightarrow> c_int \<times> 32 word" where
  "lcg_rand g = (let g' = g * 1103515245 + 12345 in (drop_bit 16 g' AND 32767, g'))"

section \<open>Theorems\<close>

subsection \<open>The channel allocator\<close>

lemma sint_INT_MAX: "sint INT_MAX = 2147483647"
  by (simp add: INT_MAX_def)

lemma sint_INT_MIN: "sint INT_MIN = - 2147483648"
  by (simp add: INT_MIN_def)

lemma c_int_succ_no_overflow:
  fixes x :: c_int
  assumes "x \<noteq> INT_MAX"
  shows "sint (x + 1) = sint x + 1"
proof -
  have ne: "sint x \<noteq> 2147483647"
  proof
    assume "sint x = 2147483647"
    then have "sint x = sint INT_MAX" by (simp add: sint_INT_MAX)
    then have "x = INT_MAX" by (rule signed_word_eqI)
    with assms show False by simp
  qed
  have "sint x < 2 ^ (LENGTH(32) - 1)" by (rule sint_lt)
  then have up: "sint x < 2147483648" by simp
  have "- (2 ^ (LENGTH(32) - 1)) \<le> sint x" by (rule sint_ge)
  then have lo: "- 2147483648 \<le> sint x" by simp
  have "sint (x + 1) = signed_take_bit (LENGTH(32) - 1) (sint x + sint (1 :: c_int))"
    by (rule sint_word_ariths)
  also have "\<dots> = signed_take_bit 31 (sint x + 1)" by simp
  also have "\<dots> = sint x + 1"
    using ne up lo by (intro signed_take_bit_int_eq_self) simp_all
  finally show ?thesis .
qed

lemma c_int_succ_overflow: "INT_MAX + 1 = INT_MIN"
  by (simp add: INT_MAX_def INT_MIN_def)

text \<open>
  C7. The allocator is total (it returns a value and a new counter for every counter),
  two consecutive calls return \<open>r\<close> and \<open>r + 1\<close>, which is strictly greater as a signed
  integer unless \<open>r\<close> is the largest \<open>int\<close>; there the successor wraps around to the
  smallest \<open>int\<close> (arithmetic modulo \<open>2 ^ 32\<close>).
\<close>

theorem checkoutFreeChannel_monotonic_total:
  "checkoutFreeChannel idx = (idx, idx + 1) \<and>
   fst (checkoutFreeChannel (snd (checkoutFreeChannel idx))) = fst (checkoutFreeChannel idx) + 1 \<and>
   (idx \<noteq> INT_MAX \<longrightarrow>
      sint (fst (checkoutFreeChannel idx)) < sint (fst (checkoutFreeChannel (snd (checkoutFreeChannel idx))))) \<and>
   (idx = INT_MAX \<longrightarrow>
      fst (checkoutFreeChannel (snd (checkoutFreeChannel idx))) = INT_MIN)"
proof -
  have eq: "checkoutFreeChannel idx = (idx, idx + 1)"
    by (simp add: checkoutFreeChannel_def)
  have r1: "fst (checkoutFreeChannel idx) = idx"
    by (simp add: checkoutFreeChannel_def)
  have r2: "fst (checkoutFreeChannel (snd (checkoutFreeChannel idx))) = idx + 1"
    by (simp add: checkoutFreeChannel_def)
  have inc: "idx \<noteq> INT_MAX \<longrightarrow> sint idx < sint (idx + 1)"
    using c_int_succ_no_overflow [of idx] by simp
  have wrap: "idx = INT_MAX \<longrightarrow> idx + 1 = INT_MIN"
    using c_int_succ_overflow by simp
  show ?thesis
    unfolding r2 r1 using eq inc wrap by blast
qed

theorem checkoutFreeChannel_monotonic_total_witness:
  "(5 :: c_int) \<noteq> INT_MAX \<and>
   sint (fst (checkoutFreeChannel 5)) < sint (fst (checkoutFreeChannel (snd (checkoutFreeChannel 5)))) \<and>
   fst (checkoutFreeChannel (snd (checkoutFreeChannel INT_MAX))) = INT_MIN"
proof -
  have ne: "(5 :: c_int) \<noteq> INT_MAX" by (simp add: INT_MAX_def)
  show ?thesis
    using ne checkoutFreeChannel_monotonic_total [of 5]
      checkoutFreeChannel_monotonic_total [of INT_MAX]
    by blast
qed

text \<open>The channel ID of the \<open>i\<close>-th endpoint constructed: the low eight bits of the counter.\<close>

lemma MEndpoint_ctor_eq:
  "m_mavlink_channel (fst (MEndpoint_ctor tag idx)) = ucast idx"
  "snd (MEndpoint_ctor tag idx) = idx + 1"
  by (simp_all add: MEndpoint_ctor_def checkoutFreeChannel_def)

lemma construct_endpoints_Cons:
  "fst (construct_endpoints (tag # tags) idx) =
     fst (MEndpoint_ctor tag idx) # fst (construct_endpoints tags (idx + 1))"
proof -
  have "snd (MEndpoint_ctor tag idx :: 'a MEndpoint \<times> c_int) = idx + 1"
    by (rule MEndpoint_ctor_eq)
  then show ?thesis
    by (auto split: prod.splits)
qed

lemma construct_endpoints_nth:
  "i < length tags \<Longrightarrow>
   m_mavlink_channel ((fst (construct_endpoints tags idx) :: 'w MEndpoint list) ! i) =
     ucast (idx + of_nat i)"
proof (induction tags arbitrary: idx i)
  case Nil
  then show ?case by simp
next
  case (Cons tag tags)
  show ?case
  proof (cases i)
    case 0
    then show ?thesis
      by (simp only: construct_endpoints_Cons nth_Cons_0 MEndpoint_ctor_eq) simp
  next
    case (Suc k)
    with Cons.prems have "k < length tags" by simp
    then have "m_mavlink_channel ((fst (construct_endpoints tags (idx + 1)) :: 'w MEndpoint list) ! k) =
        ucast (idx + 1 + of_nat k)"
      by (rule Cons.IH)
    then show ?thesis
      by (simp only: construct_endpoints_Cons Suc nth_Cons_Suc) (simp add: add.assoc)
  qed
qed

lemma ucast_channel_distinct:
  fixes idx :: c_int
  assumes "i < j" and "j < i + 256"
  shows "(ucast (idx + of_nat i) :: uint8_t) \<noteq> ucast (idx + of_nat j)"
proof
  assume eq: "(ucast (idx + of_nat i) :: uint8_t) = ucast (idx + of_nat j)"
  have u: "\<And>x :: c_int. unat (ucast x :: uint8_t) = unat x mod 256"
    by (simp add: unsigned_ucast_eq take_bit_eq_mod)
  have a: "\<And>k. unat (idx + of_nat k) mod 256 = (unat idx + k) mod 256"
  proof -
    fix k
    have "unat (idx + of_nat k) = (unat idx + k) mod 2 ^ 32"
      by (simp add: unat_word_ariths unat_of_nat mod_add_right_eq)
    moreover have "(256 :: nat) dvd 2 ^ 32" by simp
    ultimately show "unat (idx + of_nat k) mod 256 = (unat idx + k) mod 256"
      by (simp add: mod_mod_cancel)
  qed
  from eq have "unat (ucast (idx + of_nat i) :: uint8_t) = unat (ucast (idx + of_nat j) :: uint8_t)"
    by simp
  then have "(unat idx + i) mod 256 = (unat idx + j) mod 256"
    by (simp add: u a)
  then have m: "(unat idx + j) mod 256 = (unat idx + i) mod 256" by simp
  have le: "unat idx + i \<le> unat idx + j" using assms by simp
  have "256 dvd (unat idx + j) - (unat idx + i)"
    using m mod_eq_dvd_iff_nat [OF le, of 256] by simp
  then have "256 dvd j - i" by simp
  moreover have "0 < j - i" using assms by simp
  ultimately have "256 \<le> j - i" by (rule dvd_imp_le)
  with assms show False by simp
qed

text \<open>
  C1, as amended. Of the endpoints that a process constructs, from any state of the
  allocator, two whose constructions are fewer than 256 allocations apart hold distinct
  channel IDs in \<open>m_mavlink_channel\<close>; so the endpoints of a process that constructs at
  most 256 of them are pairwise distinct.
\<close>

theorem channel_ids_distinct_within_256:
  fixes tags :: "string list" and idx :: c_int
  assumes "i < j" and "j < length tags" and "j < i + 256"
  shows "m_mavlink_channel ((fst (construct_endpoints tags idx) :: 'w MEndpoint list) ! i) \<noteq>
         m_mavlink_channel ((fst (construct_endpoints tags idx) :: 'w MEndpoint list) ! j)"
proof -
  from assms have "i < length tags" by simp
  then show ?thesis
    using assms ucast_channel_distinct [OF assms(1,3), of idx]
    by (simp add: construct_endpoints_nth)
qed

text \<open>The theorem for the first and the last of 256 endpoints.\<close>

theorem channel_ids_distinct_within_256_witness:
  "(0 :: nat) < 255 \<and> 255 < length (replicate 256 ''ep'') \<and> (255 :: nat) < 0 + 256 \<and>
   m_mavlink_channel
     ((fst (construct_endpoints (replicate 256 ''ep'') channel_idx_init) :: unit MEndpoint list) ! 0) \<noteq>
   m_mavlink_channel
     ((fst (construct_endpoints (replicate 256 ''ep'') channel_idx_init) :: unit MEndpoint list) ! 255)"
proof -
  have h1: "(0 :: nat) < 255" by simp
  have h2: "255 < length (replicate 256 ''ep'')" by simp
  have h3: "(255 :: nat) < 0 + 256" by simp
  show ?thesis
    using channel_ids_distinct_within_256 [OF h1 h2 h3, of channel_idx_init] h1 h2 h3
    by blast
qed

text \<open>
  With 257 endpoints alive in one process, the last one holds the channel ID of the
  first: the counter has reached 256, whose low eight bits are 0.
\<close>

theorem channel_ids_collide_counterexample:
  "m_mavlink_channel
     ((fst (construct_endpoints (replicate 257 ''ep'') channel_idx_init) :: unit MEndpoint list) ! 0) =
   m_mavlink_channel
     ((fst (construct_endpoints (replicate 257 ''ep'') channel_idx_init) :: unit MEndpoint list) ! 256)"
  by (simp add: construct_endpoints_nth channel_idx_init_def)

subsection \<open>VideoFormat\<close>

text \<open>
  C10. \<open>a == b\<close> holds exactly when width, height and framerate agree; the codec takes no
  part, so changing only the codec of a format gives a format that compares equal to it,
  for instance H264 and H265 at the same resolution and framerate.
\<close>

theorem VideoFormat_eq_ignores_codec:
  "(VideoFormat_eq a b \<longleftrightarrow>
      width a = width b \<and> height a = height b \<and> framerate a = framerate b) \<and>
   VideoFormat_eq (a\<lparr>videoCodec := c\<rparr>) a \<and>
   VideoFormat_eq \<lparr>videoCodec = H264, width = w, height = h, framerate = f\<rparr>
                  \<lparr>videoCodec = H265, width = w, height = h, framerate = f\<rparr>"
  by (simp add: VideoFormat_eq_def)

subsection \<open>random\_number\<close>

lemma c_int_diff_plus_one_zero:
  fixes lo hi :: c_int
  assumes "sint lo \<le> sint hi" and "hi - lo + 1 = 0"
  shows "lo = INT_MIN \<and> hi = INT_MAX"
proof -
  from assms(2) have "hi + 1 - lo = 0" by (simp add: algebra_simps)
  then have lo: "lo = hi + 1" by simp
  have "hi = INT_MAX"
  proof (rule ccontr)
    assume "hi \<noteq> INT_MAX"
    then have "sint (hi + 1) = sint hi + 1" by (rule c_int_succ_no_overflow)
    with assms(1) lo show False by simp
  qed
  with lo show ?thesis by (simp add: c_int_succ_overflow)
qed

text \<open>
  C9. \<open>random_number\<close> seeds the generator from the time on every call, so the state
  \<open>g\<close> in which the generator was before the call takes no part: for \<open>min \<le> max\<close>, two
  calls with the same \<open>min\<close> and \<open>max\<close> that read the same time have the same result,
  whatever the generator states \<open>g1\<close> and \<open>g2\<close> before them. The result is a number,
  except for \<open>min\<close> the smallest and \<open>max\<close> the largest \<open>int\<close>, where \<open>max - min + 1\<close> is 0
  and both calls divide by zero.
\<close>

theorem random_number_deterministic:
  "sint min' \<le> sint max' \<longrightarrow>
     random_number srand rand t min' max' g1 = random_number srand rand t min' max' g2 \<and>
     (\<not> (min' = INT_MIN \<and> max' = INT_MAX) \<longrightarrow>
        (\<exists>n g'. random_number srand rand t min' max' g1 = Some (n, g')))"
proof (intro impI conjI)
  show "random_number srand rand t min' max' g1 = random_number srand rand t min' max' g2"
    by (simp add: random_number_def)
next
  assume le: "sint min' \<le> sint max'" and ne: "\<not> (min' = INT_MIN \<and> max' = INT_MAX)"
  have "max' - min' + 1 \<noteq> 0"
    using c_int_diff_plus_one_zero [OF le] ne by blast
  then show "\<exists>n g'. random_number srand rand t min' max' g1 = Some (n, g')"
    by (simp add: random_number_def Let_def split: prod.splits)
qed

text \<open>A die thrown at time 1000, from two different generator states.\<close>

theorem random_number_deterministic_witness:
  "sint (1 :: c_int) \<le> sint (6 :: c_int) \<and>
   \<not> ((1 :: c_int) = INT_MIN \<and> (6 :: c_int) = INT_MAX) \<and>
   random_number lcg_srand lcg_rand 1000 1 6 0 = random_number lcg_srand lcg_rand 1000 1 6 99 \<and>
   (\<exists>n g'. random_number lcg_srand lcg_rand 1000 1 6 0 = Some (n, g'))"
proof -
  have h1: "sint (1 :: c_int) \<le> sint (6 :: c_int)" by simp
  have h2: "\<not> ((1 :: c_int) = INT_MIN \<and> (6 :: c_int) = INT_MAX)" by (simp add: INT_MIN_def)
  show ?thesis
    using random_number_deterministic [of 1 6 lcg_srand lcg_rand 1000 0 99] h1 h2
    by blast
qed

subsection \<open>The send path\<close>

lemma sendMessage_eq:
  "sendMessage impl m (e, t) =
     Inr (e\<lparr>m_n_messages_sent := m_n_messages_sent e + 1,
            m_n_messages_send_failed :=
              m_n_messages_send_failed e + (if fst (impl m t) = Inr True then 0 else 1)\<rparr>,
          snd (impl m t))"
proof -
  obtain res t' where i: "impl m t = (res, t')" by (cases "impl m t")
  show ?thesis
  proof (cases res)
    case (Inl err)
    then show ?thesis by (simp add: sendMessage_def Let_def i)
  next
    case (Inr b)
    then show ?thesis by (cases b) (simp_all add: sendMessage_def Let_def i)
  qed
qed

text \<open>
  C2. For every message, endpoint and transport state and every send primitive,
  \<open>sendMessage\<close> returns normally, with the count of attempts one higher; if the primitive
  reports success, the count of successful sends is one higher and the count of failures
  is unchanged; if it reports failure or fails, the count of failures is one higher and
  the count of successful sends is unchanged. The transport is left as the primitive
  leaves it.
\<close>

theorem sendMessage_counters:
  "\<exists>e'. sendMessage impl m (e, t) = Inr (e', snd (impl m t)) \<and>
     m_n_messages_sent e' = m_n_messages_sent e + 1 \<and>
     (fst (impl m t) = Inr True \<longrightarrow>
        n_messages_send_succeeded e' = n_messages_send_succeeded e + 1 \<and>
        m_n_messages_send_failed e' = m_n_messages_send_failed e) \<and>
     (fst (impl m t) \<noteq> Inr True \<longrightarrow>
        m_n_messages_send_failed e' = m_n_messages_send_failed e + 1 \<and>
        n_messages_send_succeeded e' = n_messages_send_succeeded e)"
  by (simp add: sendMessage_eq n_messages_send_succeeded_def)

text \<open>
  One send from a new endpoint on a connected link, on a disconnected link and on a
  transport that reports that it did not send.
\<close>

theorem sendMessage_counters_witness:
  "fst (link_send [1] True) = Inr True \<and> fst (link_send [1] False) \<noteq> Inr True \<and>
   fst (busy_send [1] True) \<noteq> Inr True \<and>
   (\<exists>e'. sendMessage link_send [1] (fresh_endpoint, True) = Inr (e', True) \<and>
      m_n_messages_sent e' = 1 \<and> n_messages_send_succeeded e' = 1 \<and>
      m_n_messages_send_failed e' = 0) \<and>
   (\<exists>e'. sendMessage link_send [1] (fresh_endpoint, False) = Inr (e', False) \<and>
      m_n_messages_sent e' = 1 \<and> n_messages_send_succeeded e' = 0 \<and>
      m_n_messages_send_failed e' = 1) \<and>
   (\<exists>e'. sendMessage busy_send [1] (fresh_endpoint, True) = Inr (e', True) \<and>
      m_n_messages_sent e' = 1 \<and> n_messages_send_succeeded e' = 0 \<and>
      m_n_messages_send_failed e' = 1)"
proof -
  have h1: "fst (link_send [1] True) = Inr True"
    and h2: "fst (link_send [1] False) \<noteq> Inr True"
    and h3: "fst (busy_send [1] True) \<noteq> Inr True"
    by (simp_all add: link_send_def busy_send_def)
  have t: "snd (link_send [1] True) = True" "snd (link_send [1] False) = False"
    "snd (busy_send [1] True) = True"
    by (simp_all add: link_send_def busy_send_def)
  have z: "n_messages_send_succeeded fresh_endpoint = 0"
    "m_n_messages_send_failed fresh_endpoint = 0" "m_n_messages_sent fresh_endpoint = 0"
    by (simp_all add: n_messages_send_succeeded_def fresh_endpoint_def MEndpoint_ctor_def
        checkoutFreeChannel_def)
  show ?thesis
    using sendMessage_counters [of link_send "[1]" fresh_endpoint True]
      sendMessage_counters [of link_send "[1]" fresh_endpoint False]
      sendMessage_counters [of busy_send "[1]" fresh_endpoint True]
    unfolding t z using h1 h2 h3 by auto
qed

text \<open>
  C3. For every message, endpoint and transport state and every send primitive, also one
  that fails with \<open>NotConnected\<close> or \<open>WriteError\<close> on a disconnected or never-connected
  transport, \<open>sendMessage\<close> returns normally: its result is never an error value. The
  endpoint it returns differs from the one it was given in the send counters at most:
  tag, callback, parser state, channel, liveness timestamp and received counter are
  unchanged, and so is the answer of \<open>isAlive\<close> at every time and timeout.
\<close>

theorem sendMessage_returns_normally:
  "(\<forall>err. sendMessage impl m (e, t) \<noteq> Inl err) \<and>
   (\<exists>e'. sendMessage impl m (e, t) = Inr (e', snd (impl m t)) \<and>
      TAG e' = TAG e \<and> callback e' = callback e \<and>
      receiveMavlinkStatus e' = receiveMavlinkStatus e \<and>
      m_mavlink_channel e' = m_mavlink_channel e \<and>
      lastMessage e' = lastMessage e \<and>
      m_n_messages_received e' = m_n_messages_received e \<and>
      isAlive alive_timeout now e' = isAlive alive_timeout now e)"
  by (simp add: sendMessage_eq isAlive_def)

text \<open>A send on a link that is not connected: the endpoint comes back, one failure counted.\<close>

theorem sendMessage_returns_normally_witness:
  "fst (link_send [1] False) = Inl NotConnected \<and>
   sendMessage link_send [1] (fresh_endpoint, False) \<noteq> Inl NotConnected \<and>
   sendMessage link_send [1] (fresh_endpoint, False) =
     Inr (fresh_endpoint\<lparr>m_n_messages_sent := 1, m_n_messages_send_failed := 1\<rparr>, False)"
proof -
  have h: "fst (link_send [1] False) = Inl NotConnected"
    by (simp add: link_send_def)
  have v: "sendMessage link_send [1] (fresh_endpoint, False) =
     Inr (fresh_endpoint\<lparr>m_n_messages_sent := 1, m_n_messages_send_failed := 1\<rparr>, False)"
    by (simp add: sendMessage_def link_send_def fresh_endpoint_def MEndpoint_ctor_def
        checkoutFreeChannel_def Let_def)
  show ?thesis
    using sendMessage_returns_normally [of link_send "[1]" fresh_endpoint False] h v
    by simp
qed

subsection \<open>Liveness\<close>

lemma invoke_callback_Nil: "invoke_callback cbo [] w = w"
  by (simp add: invoke_callback_def split: option.splits)

lemma invoke_callback_append:
  "invoke_callback cbo (xs @ ys) w = invoke_callback cbo ys (invoke_callback cbo xs w)"
  by (simp add: invoke_callback_def split: option.splits)

lemma onNewMavlinkMessage_eq:
  "onNewMavlinkMessage now msg (e, w) =
     (e\<lparr>lastMessage := now, m_n_messages_received := m_n_messages_received e + 1\<rparr>,
      invoke_callback (callback e) [msg] w)"
  by (simp add: onNewMavlinkMessage_def Let_def invoke_callback_def split: option.splits)

text \<open>
  C4. After a message delivered at time \<open>T\<close>, and no other since, \<open>isAlive\<close> at \<open>T + d\<close> is
  true exactly when \<open>d\<close> is less than the timeout: true for every \<open>d\<close> below it, false for
  every \<open>d\<close> from it on. An endpoint that has never received a message reports dead, at
  every time and for every timeout. (The delivery is not the one that takes the received
  counter from \<open>-1\<close> back to 0, which the counter reaches only through the overflow of a
  signed \<open>int\<close>.)
\<close>

theorem isAlive_decay:
  fixes e :: "'w MEndpoint"
  shows "(m_n_messages_received e \<noteq> - 1 \<longrightarrow>
      (isAlive D (T + d) (fst (onNewMavlinkMessage T msg (e, w))) \<longleftrightarrow> d < D)) \<and>
   \<not> isAlive D now (fst (MEndpoint_ctor tag idx :: 'w MEndpoint \<times> c_int))"
proof -
  have "m_n_messages_received e + 1 \<noteq> 0" if "m_n_messages_received e \<noteq> - 1"
    using that by (simp add: eq_neg_iff_add_eq_0)
  then show ?thesis
    by (simp add: isAlive_def onNewMavlinkMessage_eq MEndpoint_ctor_def checkoutFreeChannel_def)
qed

text \<open>
  A new endpoint is dead at time 1; its first message arrives at time 10; with a timeout
  of 5 it is alive at 14 and dead at 15.
\<close>

theorem isAlive_decay_witness:
  "m_n_messages_received fresh_endpoint \<noteq> - 1 \<and>
   \<not> isAlive 5 1 fresh_endpoint \<and>
   isAlive 5 (10 + 4) (fst (onNewMavlinkMessage 10 [1] (fresh_endpoint, ()))) \<and>
   \<not> isAlive 5 (10 + 5) (fst (onNewMavlinkMessage 10 [1] (fresh_endpoint, ())))"
proof -
  have h: "m_n_messages_received fresh_endpoint \<noteq> - 1"
    by (simp add: fresh_endpoint_def MEndpoint_ctor_def checkoutFreeChannel_def)
  show ?thesis
    using isAlive_decay [of fresh_endpoint 5 10 4 "[1]" "()" 1 "''udp''" channel_idx_init]
      isAlive_decay [of fresh_endpoint 5 10 5 "[1]" "()" 1 "''udp''" channel_idx_init] h
    unfolding fresh_endpoint_def by simp
qed

subsection \<open>The frame parser\<close>

lemma parse_bytes_append:
  "parse_bytes fmt (a @ b) p =
     (let (m1, p1) = parse_bytes fmt a p; (m2, p2) = parse_bytes fmt b p1 in (m1 @ m2, p2))"
  by (induction a arbitrary: p) (auto split: prod.splits option.splits)

lemma parse_bytes_no_marker:
  "status p = SeekSync \<Longrightarrow> marker fmt \<notin> set C \<Longrightarrow> parse_bytes fmt C p = ([], p)"
  by (induction C) (auto simp: parse_char_def)

text \<open>The payload phase: the bytes that remain of the payload lead to VerifyChecksum.\<close>

lemma parse_bytes_payload:
  "unat l = length pre + length suf \<Longrightarrow> suf \<noteq> [] \<Longrightarrow>
   parse_bytes fmt suf \<lparr>buffer = mk # l # pre, status = ReadPayload\<rparr> =
     ([], \<lparr>buffer = mk # l # pre @ suf, status = VerifyChecksum\<rparr>)"
proof (induction suf arbitrary: pre)
  case Nil
  then show ?case by simp
next
  case (Cons c suf)
  show ?case
  proof (cases "suf = []")
    case True
    with Cons.prems show ?thesis
      by (simp add: parse_char_def expected_len_def)
  next
    case False
    have "parse_bytes fmt suf \<lparr>buffer = mk # l # (pre @ [c]), status = ReadPayload\<rparr> =
      ([], \<lparr>buffer = mk # l # (pre @ [c]) @ suf, status = VerifyChecksum\<rparr>)"
      using Cons.prems False by (intro Cons.IH) simp_all
    with Cons.prems False show ?thesis
      by (simp add: parse_char_def expected_len_def)
  qed
qed

lemma of_nat_length_eq_0:
  "length (m :: uint8_t list) \<le> 255 \<Longrightarrow> (of_nat (length m) :: uint8_t) = 0 \<longleftrightarrow> m = []"
  by (auto simp: word_of_nat_eq_0_iff dest: dvd_imp_le)

lemma unat_of_nat_length:
  "length (m :: uint8_t list) \<le> 255 \<Longrightarrow> unat (of_nat (length m) :: uint8_t) = length m"
  by (simp add: unat_of_nat)

text \<open>One well-formed frame, from SeekSync: its message is emitted, and SeekSync again.\<close>

lemma parse_bytes_frame:
  assumes "status p = SeekSync" and "length m \<le> 255"
  shows "parse_bytes fmt (encode_frame fmt m) p = ([m], \<lparr>buffer = [], status = SeekSync\<rparr>)"
proof (cases "m = []")
  case True
  with assms show ?thesis
    by (simp add: encode_frame_def parse_char_def)
next
  case False
  let ?l = "of_nat (length m) :: uint8_t"
  have l0: "?l \<noteq> 0" using assms False by (simp add: of_nat_length_eq_0)
  have pl: "parse_bytes fmt m \<lparr>buffer = marker fmt # ?l # [], status = ReadPayload\<rparr> =
      ([], \<lparr>buffer = marker fmt # ?l # [] @ m, status = VerifyChecksum\<rparr>)"
    using assms False by (intro parse_bytes_payload) (simp_all add: unat_of_nat_length)
  have enc: "encode_frame fmt m = [marker fmt, ?l] @ m @ [checksum fmt (marker fmt # ?l # m)]"
    by (simp add: encode_frame_def)
  show ?thesis
    unfolding enc parse_bytes_append
    using assms l0 pl by (simp add: parse_char_def)
qed

lemma parse_bytes_frames:
  "status p = SeekSync \<Longrightarrow> \<forall>m \<in> set ms. length m \<le> 255 \<Longrightarrow>
   fst (parse_bytes fmt (concat (map (encode_frame fmt) ms)) p) = ms \<and>
   status (snd (parse_bytes fmt (concat (map (encode_frame fmt) ms)) p)) = SeekSync"
proof (induction ms arbitrary: p)
  case Nil
  then show ?case by simp
next
  case (Cons m ms)
  let ?p0 = "\<lparr>buffer = [], status = SeekSync\<rparr>"
  have f: "parse_bytes fmt (encode_frame fmt m) p = ([m], ?p0)"
    using Cons.prems by (intro parse_bytes_frame) simp_all
  have "fst (parse_bytes fmt (concat (map (encode_frame fmt) ms)) ?p0) = ms \<and>
    status (snd (parse_bytes fmt (concat (map (encode_frame fmt) ms)) ?p0)) = SeekSync"
    using Cons.prems by (intro Cons.IH) simp_all
  then show ?case
    by (auto simp: parse_bytes_append f split: prod.splits)
qed

text \<open>
  One complete frame with a wrong checksum byte, from SeekSync: nothing is emitted, and
  SeekSync again.
\<close>

lemma parse_bytes_bad_frame:
  assumes "status p = SeekSync" and "length m \<le> 255"
    and "ck \<noteq> checksum fmt (marker fmt # of_nat (length m) # m)"
  shows "parse_bytes fmt (marker fmt # of_nat (length m) # m @ [ck]) p =
    ([], \<lparr>buffer = [], status = SeekSync\<rparr>)"
proof (cases "m = []")
  case True
  with assms show ?thesis
    by (simp add: parse_char_def)
next
  case False
  let ?l = "of_nat (length m) :: uint8_t"
  have l0: "?l \<noteq> 0" using assms False by (simp add: of_nat_length_eq_0)
  have pl: "parse_bytes fmt m \<lparr>buffer = marker fmt # ?l # [], status = ReadPayload\<rparr> =
      ([], \<lparr>buffer = marker fmt # ?l # [] @ m, status = VerifyChecksum\<rparr>)"
    using assms False by (intro parse_bytes_payload) (simp_all add: unat_of_nat_length)
  have enc: "marker fmt # ?l # m @ [ck] = [marker fmt, ?l] @ m @ [ck]"
    by simp
  show ?thesis
    unfolding enc parse_bytes_append
    using assms l0 pl by (simp add: parse_char_def)
qed

text \<open>Stray bytes and frames with wrong checksums, from SeekSync: nothing is emitted.\<close>

lemma parse_bytes_corrupt_segments:
  "status p = SeekSync \<Longrightarrow> list_all (corrupt_segment_ok fmt) segs \<Longrightarrow>
   fst (parse_bytes fmt (concat (map (segment_bytes fmt) segs)) p) = [] \<and>
   status (snd (parse_bytes fmt (concat (map (segment_bytes fmt) segs)) p)) = SeekSync"
proof (induction segs arbitrary: p)
  case Nil
  then show ?case by simp
next
  case (Cons seg segs)
  from Cons.prems have ok: "corrupt_segment_ok fmt seg"
    and oks: "list_all (corrupt_segment_ok fmt) segs"
    by simp_all
  obtain p1 where one: "parse_bytes fmt (segment_bytes fmt seg) p = ([], p1)"
    and s1: "status p1 = SeekSync"
  proof (cases seg)
    case (Stray bs)
    with ok have "marker fmt \<notin> set bs" by simp
    with Cons.prems(1) have "parse_bytes fmt bs p = ([], p)"
      by (intro parse_bytes_no_marker)
    with Stray Cons.prems(1) that show ?thesis by simp
  next
    case (BadFrame m ck)
    with ok have "length m \<le> 255"
      and "ck \<noteq> checksum fmt (marker fmt # of_nat (length m) # m)"
      by simp_all
    with Cons.prems(1)
    have "parse_bytes fmt (marker fmt # of_nat (length m) # m @ [ck]) p =
        ([], \<lparr>buffer = [], status = SeekSync\<rparr>)"
      by (intro parse_bytes_bad_frame)
    with BadFrame that show ?thesis by simp
  qed
  have "fst (parse_bytes fmt (concat (map (segment_bytes fmt) segs)) p1) = [] \<and>
    status (snd (parse_bytes fmt (concat (map (segment_bytes fmt) segs)) p1)) = SeekSync"
    using s1 oks by (rule Cons.IH)
  then show ?case
    by (auto simp: parse_bytes_append one split: prod.splits)
qed

lemma parse_bytes_resync:
  assumes "status p = SeekSync" and "length m1 \<le> 255" and "length m2 \<le> 255"
    and "list_all (corrupt_segment_ok fmt) segs"
  shows "fst (parse_bytes fmt
        (encode_frame fmt m1 @ concat (map (segment_bytes fmt) segs) @ encode_frame fmt m2) p) =
      [m1, m2] \<and>
    status (snd (parse_bytes fmt
        (encode_frame fmt m1 @ concat (map (segment_bytes fmt) segs) @ encode_frame fmt m2) p)) =
      SeekSync"
proof -
  let ?p0 = "\<lparr>buffer = [], status = SeekSync\<rparr>"
  let ?C = "concat (map (segment_bytes fmt) segs)"
  have f1: "parse_bytes fmt (encode_frame fmt m1) p = ([m1], ?p0)"
    using assms by (intro parse_bytes_frame)
  obtain p1 where c: "parse_bytes fmt ?C ?p0 = ([], p1)" and s1: "status p1 = SeekSync"
    using parse_bytes_corrupt_segments [of ?p0 fmt segs] assms(4)
    by (cases "parse_bytes fmt ?C ?p0") simp
  have f2: "parse_bytes fmt (encode_frame fmt m2) p1 = ([m2], ?p0)"
    using s1 assms by (intro parse_bytes_frame)
  show ?thesis
    by (simp add: parse_bytes_append f1 c f2)
qed

subsection \<open>The receive path\<close>

lemma deliver_all_eq:
  "deliver_all now msgs (e, w) =
     (if msgs = [] then (e, w)
      else (e\<lparr>lastMessage := now,
               m_n_messages_received := m_n_messages_received e + of_nat (length msgs)\<rparr>,
            invoke_callback (callback e) msgs w))"
proof (induction msgs arbitrary: e w)
  case Nil
  then show ?case by simp
next
  case (Cons m msgs)
  have "invoke_callback (callback e) (m # msgs) w =
      invoke_callback (callback e) msgs (invoke_callback (callback e) [m] w)"
    using invoke_callback_append [of "callback e" "[m]" msgs w] by simp
  then show ?case
    by (simp add: onNewMavlinkMessage_eq Cons.IH add.assoc invoke_callback_Nil)
qed

text \<open>\<open>parseNewData\<close> is the parser over the buffer, then the delivery of what it emitted.\<close>

lemma parseNewData_parse_bytes:
  "parseNewData fmt now data (e, w) =
     (let (msgs, p) = parse_bytes fmt data (receiveMavlinkStatus e);
          (e', w') = deliver_all now msgs (e, w)
      in (e'\<lparr>receiveMavlinkStatus := p\<rparr>, w'))"
proof (induction data arbitrary: e w)
  case Nil
  then show ?case by simp
next
  case (Cons c data)
  obtain res p1 where pc: "parse_char fmt c (receiveMavlinkStatus e) = (res, p1)"
    by (cases "parse_char fmt c (receiveMavlinkStatus e)")
  obtain msgs p2 where pb: "parse_bytes fmt data p1 = (msgs, p2)"
    by (cases "parse_bytes fmt data p1")
  have inv: "\<And>m. invoke_callback (callback e) (m # msgs) w =
      invoke_callback (callback e) msgs (invoke_callback (callback e) [m] w)"
    using invoke_callback_append [of "callback e" "[_]" msgs w] by simp
  show ?case
  proof (cases res)
    case None
    show ?thesis
      by (simp add: pc pb None Cons.IH deliver_all_eq Let_def)
  next
    case (Some msg)
    show ?thesis
      by (simp add: pc pb Some Cons.IH onNewMavlinkMessage_eq deliver_all_eq inv add.assoc Let_def
          invoke_callback_Nil)
  qed
qed

text \<open>
  What a chunked stream does to the received counter, the callback and the parser depends
  on the concatenation of the chunks alone.
\<close>

lemma receive_chunks_parse_bytes:
  "m_n_messages_received (fst (receive_chunks fmt chunks (e, w))) =
     m_n_messages_received e +
       of_nat (length (fst (parse_bytes fmt (concat (map snd chunks)) (receiveMavlinkStatus e)))) \<and>
   snd (receive_chunks fmt chunks (e, w)) =
     invoke_callback (callback e)
       (fst (parse_bytes fmt (concat (map snd chunks)) (receiveMavlinkStatus e))) w \<and>
   callback (fst (receive_chunks fmt chunks (e, w))) = callback e \<and>
   receiveMavlinkStatus (fst (receive_chunks fmt chunks (e, w))) =
     snd (parse_bytes fmt (concat (map snd chunks)) (receiveMavlinkStatus e))"
proof (induction chunks arbitrary: e w)
  case Nil
  then show ?case by (simp add: invoke_callback_Nil)
next
  case (Cons ch chunks)
  obtain now data where ch: "ch = (now, data)" by (cases ch)
  obtain msgs p where pb: "parse_bytes fmt data (receiveMavlinkStatus e) = (msgs, p)"
    by (cases "parse_bytes fmt data (receiveMavlinkStatus e)")
  obtain e1 w1 where s1: "parseNewData fmt now data (e, w) = (e1, w1)"
    by (cases "parseNewData fmt now data (e, w)")
  from s1 have e1: "m_n_messages_received e1 = m_n_messages_received e + of_nat (length msgs)"
    "w1 = invoke_callback (callback e) msgs w" "callback e1 = callback e"
    "receiveMavlinkStatus e1 = p"
    by (auto simp: parseNewData_parse_bytes pb deliver_all_eq invoke_callback_Nil
        split: if_splits)
  obtain msgs2 p2 where pb2: "parse_bytes fmt (concat (map snd chunks)) p = (msgs2, p2)"
    by (cases "parse_bytes fmt (concat (map snd chunks)) p")
  show ?case
    using Cons.IH [of e1 w1]
    by (simp add: ch s1 e1 parse_bytes_append pb pb2 invoke_callback_append add.assoc)
qed

lemma example_endpoint_SeekSync: "status (receiveMavlinkStatus example_endpoint) = SeekSync"
  by (simp add: example_endpoint_def registerCallback_def MEndpoint_ctor_def
      checkoutFreeChannel_def FrameParser_init_def)

lemma example_frames:
  "encode_frame example_format [1, 2] = [253, 2, 1, 2, 2]"
  "encode_frame example_format [3] = [253, 1, 3, 1]"
  "encode_frame example_format [] = [253, 0, 253]"
  by (simp_all add: encode_frame_def example_format_def sum_checksum_def)

text \<open>
  C8. \<open>parseNewDataEmulateForMavsdk\<close> is the delivery step \<open>onNewMavlinkMessage\<close> and
  nothing else: it leaves the parser state alone. For an endpoint whose parser is in
  SeekSync, feeding the frame that carries \<open>m\<close> through \<open>parseNewData\<close> gives the same
  endpoint (received counter, liveness timestamp, callback and all other fields) and the
  same effect of the callback as the emulated path with \<open>m\<close>; only the parser has run,
  and is in SeekSync again.
\<close>

theorem parseNewDataEmulateForMavsdk_same_delivery:
  "parseNewDataEmulateForMavsdk now m (e, w) = onNewMavlinkMessage now m (e, w) \<and>
   receiveMavlinkStatus (fst (parseNewDataEmulateForMavsdk now m (e, w))) =
     receiveMavlinkStatus e \<and>
   (status (receiveMavlinkStatus e) = SeekSync \<and> length m \<le> 255 \<longrightarrow>
      fst (parseNewData fmt now (encode_frame fmt m) (e, w)) =
        (fst (parseNewDataEmulateForMavsdk now m (e, w)))
          \<lparr>receiveMavlinkStatus := \<lparr>buffer = [], status = SeekSync\<rparr>\<rparr> \<and>
      snd (parseNewData fmt now (encode_frame fmt m) (e, w)) =
        snd (parseNewDataEmulateForMavsdk now m (e, w)))"
proof -
  have a: "parseNewDataEmulateForMavsdk now m (e, w) = onNewMavlinkMessage now m (e, w)"
    by (simp add: parseNewDataEmulateForMavsdk_def)
  have b: "receiveMavlinkStatus (fst (onNewMavlinkMessage now m (e, w))) = receiveMavlinkStatus e"
    by (simp add: onNewMavlinkMessage_eq)
  have c: "fst (parseNewData fmt now (encode_frame fmt m) (e, w)) =
        (fst (onNewMavlinkMessage now m (e, w)))
          \<lparr>receiveMavlinkStatus := \<lparr>buffer = [], status = SeekSync\<rparr>\<rparr> \<and>
      snd (parseNewData fmt now (encode_frame fmt m) (e, w)) =
        snd (onNewMavlinkMessage now m (e, w))"
    if "status (receiveMavlinkStatus e) = SeekSync" and "length m \<le> 255"
    using parse_bytes_frame [OF that, of fmt]
    by (simp add: parseNewData_parse_bytes deliver_all_eq onNewMavlinkMessage_eq)
  show ?thesis
    unfolding a using b c by blast
qed

text \<open>The message \<open>[7, 8]\<close> at time 4, through the parser and through the emulated path.\<close>

theorem parseNewDataEmulateForMavsdk_same_delivery_witness:
  "status (receiveMavlinkStatus example_endpoint) = SeekSync \<and> length [7, 8 :: uint8_t] \<le> 255 \<and>
   snd (parseNewData example_format 4 (encode_frame example_format [7, 8]) (example_endpoint, [])) =
     [[7, 8]] \<and>
   snd (parseNewDataEmulateForMavsdk 4 [7, 8] (example_endpoint, [])) = [[7, 8]] \<and>
   lastMessage (fst (parseNewData example_format 4 (encode_frame example_format [7, 8])
     (example_endpoint, []))) = 4"
proof -
  have h2: "length [7, 8 :: uint8_t] \<le> 255" by simp
  have h3: "onNewMavlinkMessage 4 [7, 8] (example_endpoint, []) =
      (example_endpoint\<lparr>lastMessage := 4, m_n_messages_received := 1\<rparr>, [[7, 8]])"
    by (simp add: onNewMavlinkMessage_def example_endpoint_def registerCallback_def
        MEndpoint_ctor_def checkoutFreeChannel_def log_message_def Let_def)
  show ?thesis
    using parseNewDataEmulateForMavsdk_same_delivery
      [of 4 "[7, 8]" example_endpoint "[]" example_format] example_endpoint_SeekSync h2
    by (simp add: h3)
qed

text \<open>
  C6. An endpoint whose parser is in SeekSync is fed the well-formed frames of the
  messages \<open>ms\<close>, one after the other with nothing in between, in any chunking. The
  registered callback is invoked with the messages of \<open>ms\<close>, each once, first to last, and
  the received counter grows by their number.
\<close>

theorem callback_once_per_frame_in_order:
  assumes "status (receiveMavlinkStatus e) = SeekSync"
    and "\<forall>m \<in> set ms. length m \<le> 255"
    and "concat (map snd chunks) = concat (map (encode_frame fmt) ms)"
  shows "snd (receive_chunks fmt chunks (registerCallback cb e, w)) =
      foldl (\<lambda>w' m. cb m w') w ms \<and>
    m_n_messages_received (fst (receive_chunks fmt chunks (registerCallback cb e, w))) =
      m_n_messages_received e + of_nat (length ms)"
proof -
  have st: "status (receiveMavlinkStatus (registerCallback cb e)) = SeekSync"
    using assms(1) by (simp add: registerCallback_def)
  have r: "fst (parse_bytes fmt (concat (map snd chunks))
      (receiveMavlinkStatus (registerCallback cb e))) = ms"
    using parse_bytes_frames [OF st assms(2), of fmt] assms(3) by simp
  have cbk: "callback (registerCallback cb e) = Some cb"
    "m_n_messages_received (registerCallback cb e) = m_n_messages_received e"
    by (simp_all add: registerCallback_def)
  show ?thesis
    using receive_chunks_parse_bytes [of fmt chunks "registerCallback cb e" w]
    by (simp add: r cbk invoke_callback_def)
qed

text \<open>Three frames in three chunks that cut them apart; the log holds the three messages.\<close>

theorem callback_once_per_frame_in_order_witness:
  "status (receiveMavlinkStatus example_endpoint) = SeekSync \<and>
   length [1, 2 :: uint8_t] \<le> 255 \<and> length [3 :: uint8_t] \<le> 255 \<and>
   length ([] :: uint8_t list) \<le> 255 \<and>
   concat (map snd [(1 :: time_point, [253, 2, 1, 2, 2, 253 :: uint8_t]),
                    (2, [1, 3, 1, 253, 0]), (3, [253])]) =
     concat (map (encode_frame example_format) [[1, 2], [3], []]) \<and>
   snd (receive_chunks example_format
          [(1, [253, 2, 1, 2, 2, 253]), (2, [1, 3, 1, 253, 0]), (3, [253])]
          (registerCallback log_message example_endpoint, [])) = [[1, 2], [3], []]"
proof -
  have h2: "\<forall>m \<in> set [[1, 2], [3], [] :: uint8_t list]. length m \<le> 255" by simp
  have h3: "concat (map snd [(1 :: time_point, [253, 2, 1, 2, 2, 253 :: uint8_t]),
                    (2, [1, 3, 1, 253, 0]), (3, [253])]) =
     concat (map (encode_frame example_format) [[1, 2], [3], []])"
    by (simp add: example_frames)
  show ?thesis
    using callback_once_per_frame_in_order [OF example_endpoint_SeekSync h2 h3, of log_message "[]"]
      example_endpoint_SeekSync h2 h3
    by (simp add: log_message_def)
qed

text \<open>
  C5, as amended. An endpoint whose parser is in SeekSync is fed a well-formed frame,
  then corrupt bytes \<open>C\<close>, then a second well-formed frame, in any chunking. If \<open>C\<close> is made
  of stray bytes other than the start-of-frame marker and of complete frames (marker,
  length, payload of that length, checksum byte) whose checksum byte is wrong, in any
  number and order, then every corrupted frame is discarded and exactly two messages are
  delivered, that of the first frame and then that of the second, and the parser is in
  SeekSync again. Nothing is said of a \<open>C\<close> that leaves a frame incomplete.
\<close>

theorem parseNewData_resynchronizes:
  assumes "status (receiveMavlinkStatus e) = SeekSync"
    and "length m1 \<le> 255" and "length m2 \<le> 255"
    and "list_all (corrupt_segment_ok fmt) segs"
    and "concat (map snd chunks) =
      encode_frame fmt m1 @ concat (map (segment_bytes fmt) segs) @ encode_frame fmt m2"
  shows "snd (receive_chunks fmt chunks (registerCallback cb e, w)) = cb m2 (cb m1 w) \<and>
    m_n_messages_received (fst (receive_chunks fmt chunks (registerCallback cb e, w))) =
      m_n_messages_received e + 2 \<and>
    status (receiveMavlinkStatus (fst (receive_chunks fmt chunks (registerCallback cb e, w)))) =
      SeekSync"
proof -
  have st: "status (receiveMavlinkStatus (registerCallback cb e)) = SeekSync"
    using assms(1) by (simp add: registerCallback_def)
  have r: "fst (parse_bytes fmt (concat (map snd chunks))
      (receiveMavlinkStatus (registerCallback cb e))) = [m1, m2]"
    "status (snd (parse_bytes fmt (concat (map snd chunks))
      (receiveMavlinkStatus (registerCallback cb e)))) = SeekSync"
    using parse_bytes_resync [OF st assms(2,3,4)] assms(5) by simp_all
  have cbk: "callback (registerCallback cb e) = Some cb"
    "m_n_messages_received (registerCallback cb e) = m_n_messages_received e"
    by (simp_all add: registerCallback_def)
  show ?thesis
    using receive_chunks_parse_bytes [of fmt chunks "registerCallback cb e" w]
    by (simp add: r cbk invoke_callback_def)
qed

text \<open>
  Between the two frames: a stray byte, a complete frame whose checksum byte is 4 where 5
  is right, a stray byte; in three chunks.
\<close>

theorem parseNewData_resynchronizes_witness:
  "status (receiveMavlinkStatus example_endpoint) = SeekSync \<and>
   length [1, 2 :: uint8_t] \<le> 255 \<and> length [3 :: uint8_t] \<le> 255 \<and>
   list_all (corrupt_segment_ok example_format) [Stray [9], BadFrame [7] 4, Stray [9]] \<and>
   concat (map snd [(1 :: time_point, [253, 2, 1 :: uint8_t]), (2, [2, 2, 9, 253, 1, 7]),
                    (3, [4, 9, 253, 1, 3, 1])]) =
     encode_frame example_format [1, 2] @
     concat (map (segment_bytes example_format) [Stray [9], BadFrame [7] 4, Stray [9]]) @
     encode_frame example_format [3] \<and>
   snd (receive_chunks example_format
          [(1, [253, 2, 1]), (2, [2, 2, 9, 253, 1, 7]), (3, [4, 9, 253, 1, 3, 1])]
          (registerCallback log_message example_endpoint, [])) = [[1, 2], [3]]"
proof -
  have h2: "length [1, 2 :: uint8_t] \<le> 255" "length [3 :: uint8_t] \<le> 255" by simp_all
  have h3: "list_all (corrupt_segment_ok example_format) [Stray [9], BadFrame [7] 4, Stray [9]]"
    by (simp add: example_format_def sum_checksum_def)
  have h4: "concat (map snd [(1 :: time_point, [253, 2, 1 :: uint8_t]), (2, [2, 2, 9, 253, 1, 7]),
                    (3, [4, 9, 253, 1, 3, 1])]) =
     encode_frame example_format [1, 2] @
     concat (map (segment_bytes example_format) [Stray [9], BadFrame [7] 4, Stray [9]]) @
     encode_frame example_format [3]"
    unfolding example_frames by (simp add: example_format_def)
  show ?thesis
    using parseNewData_resynchronizes [OF example_endpoint_SeekSync h2 h3 h4, of log_message "[]"]
      example_endpoint_SeekSync h3 h4
    by (simp add: log_message_def)
qed

text \<open>
  Between the two frames: a start-of-frame marker and a length field of 255. The parser
  takes the second frame for payload; one message is delivered, not two.
\<close>

theorem parseNewData_resynchronization_counterexample:
  "snd (receive_chunks example_format
          [(1, encode_frame example_format [1, 2] @ [253, 255] @ encode_frame example_format [3])]
          (example_endpoint, [])) = [[1, 2]] \<and>
   m_n_messages_received (fst (receive_chunks example_format
          [(1, encode_frame example_format [1, 2] @ [253, 255] @ encode_frame example_format [3])]
          (example_endpoint, []))) = 1"
  unfolding example_frames
  by (simp add: example_format_def sum_checksum_def parse_char_def
      example_endpoint_def registerCallback_def MEndpoint_ctor_def checkoutFreeChannel_def
      FrameParser_init_def onNewMavlinkMessage_def log_message_def expected_len_def Let_def)

end
